theory Spec2Isabelle
  imports Complex_Main "HOL-Library.Sublist"
begin

section \<open>Data model of the framework module\<close>

text \<open>
  The enumerations of the framework module.  Python floats are modelled by exact reals
  throughout: the scoring formula and the thresholds are read as real arithmetic, and
  rounding of IEEE doubles is outside the model.
\<close>

datatype OpsecLayer = USERLAND | KERNEL | DNS | NETWORK | METADATA

datatype CorrelationStrength = SOLO | PAIR | MULTI | WEAK

datatype DetectabilityLevel = TRIVIAL | MODERATE | HARD | RESEARCH

datatype py_error = ValueError | IndexError

text \<open>The \<open>.value\<close> of each member of \<open>CorrelationStrength\<close> (lower case in the source).\<close>

fun strength_value :: "CorrelationStrength \<Rightarrow> string" where
  "strength_value SOLO = ''solo''"
| "strength_value PAIR = ''pair''"
| "strength_value MULTI = ''multi''"
| "strength_value WEAK = ''weak''"


text \<open>
  A \<open>Signal\<close>.  The field \<open>timestamp\<close> holds what \<open>timestamp.timestamp()\<close> returns: the
  seconds since the epoch, negative before 1970.  The field \<open>value\<close> of the source (of type
  \<open>Any\<close>) is carried as text, as is the annotation bag.
\<close>

record Signal =
  signal_id :: string
  layer :: OpsecLayer
  description :: string
  signal_value :: string
  timestamp :: real
  correlation_potential :: CorrelationStrength
  detectability :: DetectabilityLevel
  metadata :: "(string \<times> string) list"

record CorrelationResult =
  signals :: "Signal list"
  correlation_score :: real
  attribution_confidence :: string
  correlation_type :: string
  explanation :: string
  risk_level :: string

section \<open>Scoring primitives\<close>

text \<open>The dictionary \<open>base_scores\<close> of \<open>calculate_correlation_score\<close>.\<close>

fun base_scores :: "CorrelationStrength \<Rightarrow> real" where
  "base_scores SOLO = 0.8"
| "base_scores PAIR = 0.4"
| "base_scores MULTI = 0.2"
| "base_scores WEAK = 0.1"

definition calculate_correlation_score :: "Signal list \<Rightarrow> real" where
  "calculate_correlation_score sigs =
     (if sigs = [] then 0.0
      else
        let unique_layers = card (set (map layer sigs));
            layer_multiplier = 1.0 + real_of_int (int unique_layers - 1) * 0.3;
            avg_strength = sum_list (map (\<lambda>s. base_scores (correlation_potential s)) sigs)
                             / real (length sigs);
            n = length sigs;
            combined_score = (1 - (1 - avg_strength) ^ n) * layer_multiplier
        in min combined_score 1.0)"

definition assess_attribution_confidence :: "real \<Rightarrow> string" where
  "assess_attribution_confidence score =
     (if score \<ge> 0.9 then ''CRITICAL''
      else if score \<ge> 0.7 then ''HIGH''
      else if score \<ge> 0.4 then ''MEDIUM''
      else ''LOW'')"

definition assess_risk_level :: "string \<Rightarrow> int \<Rightarrow> string" where
  "assess_risk_level confidence signal_count =
     (if confidence = ''CRITICAL'' \<or> signal_count \<ge> 4 then ''CRITICAL - OPSEC COMPROMISED''
      else if confidence = ''HIGH'' \<or> signal_count \<ge> 3 then ''HIGH - ATTRIBUTION LIKELY''
      else if confidence = ''MEDIUM'' then ''MEDIUM - CORRELATION POSSIBLE''
      else ''LOW - INSUFFICIENT CORRELATION'')"

section \<open>Helpers for Python built-ins\<close>

text \<open>
  \<open>int(x)\<close> on a float truncates towards zero: it is the floor of a non-negative number and
  the ceiling of a negative one.
\<close>

definition py_int :: "real \<Rightarrow> int" where
  "py_int x = (if x \<ge> 0 then \<lfloor>x\<rfloor> else \<lceil>x\<rceil>)"

text \<open>
  A \<open>defaultdict(list)\<close> filled by \<open>d[key].append(x)\<close>: an association list in insertion
  order of the keys, as the dictionary iterates.
\<close>

fun dict_append :: "('k \<times> 'v list) list \<Rightarrow> 'k \<Rightarrow> 'v \<Rightarrow> ('k \<times> 'v list) list" where
  "dict_append [] k v = [(k, [v])]"
| "dict_append ((k', vs) # rest) k v =
     (if k' = k then (k', vs @ [v]) # rest else (k', vs) # dict_append rest k v)"

definition group_by :: "('v \<Rightarrow> 'k) \<Rightarrow> 'v list \<Rightarrow> ('k \<times> 'v list) list" where
  "group_by f xs = foldl (\<lambda>d x. dict_append d (f x) x) [] xs"

text \<open>\<open>d.get(key, [])\<close>.\<close>

definition dict_get :: "('k \<times> 'v list) list \<Rightarrow> 'k \<Rightarrow> 'v list" where
  "dict_get d k = (case map_of d k of None \<Rightarrow> [] | Some vs \<Rightarrow> vs)"

text \<open>\<open>sub in s\<close> on strings.\<close>

fun starts_with :: "string \<Rightarrow> string \<Rightarrow> bool" where
  "starts_with [] s = True"
| "starts_with (c # cs) [] = False"
| "starts_with (c # cs) (d # ds) = (c = d \<and> starts_with cs ds)"

fun str_in :: "string \<Rightarrow> string \<Rightarrow> bool" where
  "str_in sub [] = (sub = [])"
| "str_in sub (c # cs) = (starts_with sub (c # cs) \<or> str_in sub cs)"

text \<open>\<open>s.lower()\<close>, on the ASCII letters.\<close>

definition lower_char :: "char \<Rightarrow> char" where
  "lower_char c =
     (if 65 \<le> (of_char c :: nat) \<and> (of_char c :: nat) \<le> 90
      then char_of ((of_char c :: nat) + 32) else c)"

definition py_lower :: "string \<Rightarrow> string" where
  "py_lower s = map lower_char s"

text \<open>\<open>str(n)\<close> of a natural number, for the f-strings.\<close>

definition digit_char :: "nat \<Rightarrow> char" where
  "digit_char d = char_of (48 + d)"

fun py_str :: "nat \<Rightarrow> string" where
  "py_str n = (if n < 10 then [digit_char n] else py_str (n div 10) @ [digit_char (n mod 10)])"

declare py_str.simps [simp del]

text \<open>\<open>xs.index(x)\<close>: the first position of \<open>x\<close>, or \<open>ValueError\<close>.\<close>

fun list_index :: "'a list \<Rightarrow> 'a \<Rightarrow> py_error + nat" where
  "list_index [] x = Inl ValueError"
| "list_index (y # ys) x =
     (if y = x then Inr 0
      else case list_index ys x of Inl e \<Rightarrow> Inl e | Inr i \<Rightarrow> Inr (Suc i))"

text \<open>
  \<open>sorted(xs, key=f)\<close>: the key of every element is computed first, in order, and the first
  key that raises aborts the call; the sort is stable.
\<close>

fun compute_keys :: "('a \<Rightarrow> py_error + nat) \<Rightarrow> 'a list \<Rightarrow> py_error + (nat \<times> 'a) list" where
  "compute_keys f [] = Inr []"
| "compute_keys f (x # xs) =
     (case f x of
        Inl e \<Rightarrow> Inl e
      | Inr k \<Rightarrow> (case compute_keys f xs of Inl e \<Rightarrow> Inl e | Inr ks \<Rightarrow> Inr ((k, x) # ks)))"

definition py_sorted :: "('a \<Rightarrow> py_error + nat) \<Rightarrow> 'a list \<Rightarrow> py_error + 'a list" where
  "py_sorted f xs =
     (case compute_keys f xs of
        Inl e \<Rightarrow> Inl e
      | Inr ks \<Rightarrow> Inr (map snd (sort_key fst ks)))"

text \<open>\<open>xs[0]\<close>.\<close>

definition first_item :: "'a list \<Rightarrow> py_error + 'a" where
  "first_item xs = (case xs of [] \<Rightarrow> Inl IndexError | x # _ \<Rightarrow> Inr x)"

section \<open>The correlation engine\<close>

record CorrelationEngine =
  engine_signals :: "Signal list"
  correlations :: "CorrelationResult list"

definition init_engine :: CorrelationEngine where
  "init_engine = \<lparr>engine_signals = [], correlations = []\<rparr>"

definition add_signals :: "CorrelationEngine \<Rightarrow> Signal list \<Rightarrow> CorrelationEngine" where
  "add_signals st batch = st\<lparr>engine_signals := engine_signals st @ batch\<rparr>"

definition clear :: "CorrelationEngine \<Rightarrow> CorrelationEngine" where
  "clear st = st\<lparr>engine_signals := [], correlations := []\<rparr>"

text \<open>
  Every pass builds its result the same way: the score of the group, the confidence of the
  score, and the risk of the confidence and the size of the group.  The four constructor
  calls of the source differ only in the group, the type tag and the explanation.
\<close>

definition make_result :: "Signal list \<Rightarrow> string \<Rightarrow> string \<Rightarrow> CorrelationResult" where
  "make_result combined ctype expl =
     (let score = calculate_correlation_score combined;
          confidence = assess_attribution_confidence score
      in \<lparr>signals = combined,
          correlation_score = score,
          attribution_confidence = confidence,
          correlation_type = ctype,
          explanation = expl,
          risk_level = assess_risk_level confidence (int (length combined))\<rparr>)"

subsection \<open>Temporal pass\<close>

text \<open>The pass is only ever called with its default window of 300 seconds.\<close>

definition time_window_seconds :: int where
  "time_window_seconds = 300"

definition bucket_key :: "Signal \<Rightarrow> int" where
  "bucket_key s = py_int (timestamp s / real_of_int time_window_seconds)"

text \<open>The body of the loop over the buckets; \<open>continue\<close> contributes nothing.\<close>

definition temporal_bucket :: "Signal list \<Rightarrow> CorrelationResult list" where
  "temporal_bucket bucket_signals =
     (if length bucket_signals < 2 then []
      else
        let layers = set (map layer bucket_signals) in
        if card layers < 2 then []
        else [make_result bucket_signals ''TEMPORAL''
                (py_str (length bucket_signals) @ '' signals from '' @ py_str (card layers)
                   @ '' layers occurred within '' @ py_str (nat time_window_seconds)
                   @ ''s window'')])"

definition correlate_temporal :: "Signal list \<Rightarrow> CorrelationResult list" where
  "correlate_temporal sigs =
     concat (map (\<lambda>(key, bucket_signals). temporal_bucket bucket_signals)
                 (group_by bucket_key sigs))"

subsection \<open>Cross-layer pass\<close>

definition correlate_cross_layer :: "Signal list \<Rightarrow> CorrelationResult list" where
  "correlate_cross_layer sigs =
     (let layer_signals = group_by layer sigs;
          dns_signals = dict_get layer_signals DNS;
          network_signals = dict_get layer_signals NETWORK;
          dns_resolver_signals =
            filter (\<lambda>s. str_in ''resolver'' (signal_id s)
                       \<or> str_in ''public_resolver'' (signal_id s)) dns_signals;
          as_signals = filter (\<lambda>s. str_in ''as'' (py_lower (signal_id s))) network_signals;
          pattern1 =
            (if dns_resolver_signals \<noteq> [] \<and> as_signals \<noteq> []
             then [make_result (dns_resolver_signals @ as_signals) ''DNS_NETWORK_CORRELATION''
                     ''DNS resolver and network AS signals enable infrastructure correlation'']
             else []);
          userland_signals = dict_get layer_signals USERLAND;
          metadata_signals = dict_get layer_signals METADATA;
          timezone_signals =
            filter (\<lambda>s. str_in ''timezone'' (signal_id s)
                       \<or> str_in ''locale'' (signal_id s)) userland_signals;
          timing_signals =
            filter (\<lambda>s. str_in ''time'' (signal_id s)
                       \<or> str_in ''timing'' (signal_id s)) metadata_signals;
          pattern2 =
            (if timezone_signals \<noteq> [] \<and> timing_signals \<noteq> []
             then [make_result (timezone_signals @ timing_signals)
                     ''TIMEZONE_TIMING_CORRELATION''
                     ''Timezone and activity timing signals enable geographic/human attribution'']
             else [])
      in pattern1 @ pattern2)"

subsection \<open>Multi-signal pass\<close>

text \<open>
  The key of the sort: the position of \<open>s.correlation_potential.value\<close> in the list of the
  upper-case names.
\<close>

definition potential_key :: "Signal \<Rightarrow> py_error + nat" where
  "potential_key s =
     list_index [''WEAK'', ''MULTI'', ''PAIR'', ''SOLO'']
       (strength_value (correlation_potential s))"

text \<open>
  The iteration over \<open>layer_groups.items()\<close>, with the key of the sort as a parameter: each group
  is sorted and its first element taken.
\<close>

fun representatives ::
  "(Signal \<Rightarrow> py_error + nat) \<Rightarrow> (OpsecLayer \<times> Signal list) list \<Rightarrow> py_error + Signal list" where
  "representatives key [] = Inr []"
| "representatives key ((l, layer_sigs) # rest) =
     (case py_sorted key layer_sigs of
        Inl e \<Rightarrow> Inl e
      | Inr sorted_signals \<Rightarrow>
          (case first_item sorted_signals of
             Inl e \<Rightarrow> Inl e
           | Inr r \<Rightarrow>
               (case representatives key rest of
                  Inl e \<Rightarrow> Inl e
                | Inr rs \<Rightarrow> Inr (r # rs))))"

definition correlate_multi_signal_by ::
  "(Signal \<Rightarrow> py_error + nat) \<Rightarrow> Signal list \<Rightarrow> py_error + CorrelationResult list" where
  "correlate_multi_signal_by key sigs =
     (let layer_groups = group_by layer sigs in
      if length layer_groups \<ge> 3 then
        (case representatives key layer_groups of
           Inl e \<Rightarrow> Inl e
         | Inr representative_signals \<Rightarrow>
             if length representative_signals \<ge> 3
             then Inr [make_result representative_signals ''MULTI_LAYER_CONVERGENCE''
                         (''Signals from '' @ py_str (length representative_signals)
                            @ '' different layers converge for high-confidence attribution'')]
             else Inr [])
      else Inr [])"

definition correlate_multi_signal :: "Signal list \<Rightarrow> py_error + CorrelationResult list" where
  "correlate_multi_signal sigs = correlate_multi_signal_by potential_key sigs"

subsection \<open>Running the passes\<close>

text \<open>
  \<open>correlate_all\<close> returns the engine as the call leaves it, and either the returned list or
  the exception that escaped.  The stored list is extended after each pass, so an exception
  in the last pass leaves the results of the first two stored.
\<close>

definition correlate_all_by ::
  "(Signal \<Rightarrow> py_error + nat) \<Rightarrow> CorrelationEngine
     \<Rightarrow> CorrelationEngine \<times> (py_error + CorrelationResult list)" where
  "correlate_all_by key st =
     (let st0 = st\<lparr>correlations := []\<rparr>;
          temporal_corrs = correlate_temporal (engine_signals st0);
          st1 = st0\<lparr>correlations := correlations st0 @ temporal_corrs\<rparr>;
          cross_layer_corrs = correlate_cross_layer (engine_signals st1);
          st2 = st1\<lparr>correlations := correlations st1 @ cross_layer_corrs\<rparr>
      in case correlate_multi_signal_by key (engine_signals st2) of
           Inl e \<Rightarrow> (st2, Inl e)
         | Inr multi_corrs \<Rightarrow>
             (let st3 = st2\<lparr>correlations := correlations st2 @ multi_corrs\<rparr>
              in (st3, Inr (correlations st3))))"

definition correlate_all ::
  "CorrelationEngine \<Rightarrow> CorrelationEngine \<times> (py_error + CorrelationResult list)" where
  "correlate_all st = correlate_all_by potential_key st"

subsection \<open>Queries and recommendations\<close>

definition get_critical_correlations :: "CorrelationEngine \<Rightarrow> CorrelationResult list" where
  "get_critical_correlations st =
     filter (\<lambda>c. attribution_confidence c = ''CRITICAL'') (correlations st)"


text \<open>
  A recommendation dictionary.  The entry \<open>layers\<close> of the convergence template is
  \<open>list(set(...))\<close>, whose order the source does not fix, so the field holds the set of names.
\<close>

record Recommendation =
  priority :: string
  issue :: string
  recommendation :: string
  layers :: "string set"




section \<open>Reference definitions and sample data\<close>

text \<open>The strength table as the specification words it, for comparison with \<open>base_scores\<close>.\<close>

definition spec_base_strength :: "CorrelationStrength \<Rightarrow> real" where
  "spec_base_strength p = (case p of SOLO \<Rightarrow> 8 / 10 | PAIR \<Rightarrow> 4 / 10 | MULTI \<Rightarrow> 2 / 10 | WEAK \<Rightarrow> 1 / 10)"

text \<open>A signal with the given identifier, layer, time and potential, for concrete runs.\<close>

definition sample_signal ::
  "string \<Rightarrow> OpsecLayer \<Rightarrow> real \<Rightarrow> CorrelationStrength \<Rightarrow> Signal" where
  "sample_signal i l t p =
     \<lparr>signal_id = i, layer = l, description = [], signal_value = [], timestamp = t,
      correlation_potential = p, detectability = TRIVIAL, metadata = []\<rparr>"

text \<open>
  Containment as the specification words it: \<open>sub\<close> occurs in \<open>s\<close>, and \<open>sub\<close> occurs in \<open>s\<close>
  up to the case of the letters.
\<close>

definition contains :: "string \<Rightarrow> string \<Rightarrow> bool" where
  "contains s sub \<longleftrightarrow> (\<exists>u v. s = u @ sub @ v)"

definition contains_ignoring_case :: "string \<Rightarrow> string \<Rightarrow> bool" where
  "contains_ignoring_case s sub \<longleftrightarrow> (\<exists>u t v. s = u @ t @ v \<and> py_lower t = py_lower sub)"

text \<open>
  The two matching subsets of the DNS/NETWORK rule as the specification words them, taken
  from the accumulated signals directly, and the results of that type in the pass's output.
\<close>

definition dns_resolver_matches :: "Signal list \<Rightarrow> Signal list" where
  "dns_resolver_matches sigs =
     filter (\<lambda>s. layer s = DNS
                \<and> (contains (signal_id s) ''resolver'' \<or> contains (signal_id s) ''public_resolver''))
       sigs"

definition network_as_matches :: "Signal list \<Rightarrow> Signal list" where
  "network_as_matches sigs =
     filter (\<lambda>s. layer s = NETWORK \<and> contains_ignoring_case (signal_id s) ''as'') sigs"

definition timezone_matches :: "Signal list \<Rightarrow> Signal list" where
  "timezone_matches sigs =
     filter (\<lambda>s. layer s = USERLAND
                \<and> (contains (signal_id s) ''timezone'' \<or> contains (signal_id s) ''locale''))
       sigs"

definition timing_matches :: "Signal list \<Rightarrow> Signal list" where
  "timing_matches sigs =
     filter (\<lambda>s. layer s = METADATA
                \<and> (contains (signal_id s) ''time'' \<or> contains (signal_id s) ''timing''))
       sigs"

definition dns_network_results :: "Signal list \<Rightarrow> CorrelationResult list" where
  "dns_network_results sigs =
     filter (\<lambda>c. correlation_type c = ''DNS_NETWORK_CORRELATION'') (correlate_cross_layer sigs)"

text \<open>
  An engine holding a DNS resolver signal and a NETWORK AS signal ten seconds apart, and the
  temporal result that a run on it stores.
\<close>

definition sample_engine :: CorrelationEngine where
  "sample_engine =
     \<lparr>engine_signals =
        [sample_signal ''public_resolver_8_8_8_8'' DNS 0 PAIR,
         sample_signal ''as_path_length'' NETWORK 10 MULTI],
      correlations = []\<rparr>"

definition sample_temporal_result :: CorrelationResult where
  "sample_temporal_result =
     make_result
       [sample_signal ''public_resolver_8_8_8_8'' DNS 0 PAIR,
        sample_signal ''as_path_length'' NETWORK 10 MULTI]
       ''TEMPORAL'' ''2 signals from 2 layers occurred within 300s window''"















text \<open>
  The bucket key as the specification words it, and the buckets that qualify for a result.
\<close>

definition floor_bucket_key :: "Signal \<Rightarrow> int" where
  "floor_bucket_key s = \<lfloor>timestamp s / 300\<rfloor>"

definition qualifies :: "Signal list \<Rightarrow> bool" where
  "qualifies b \<longleftrightarrow> 2 \<le> length b \<and> 2 \<le> card (layer ` set b)"

section \<open>Scoring primitives: properties\<close>

lemma base_scores_spec: "base_scores p = spec_base_strength p"
  by (cases p) (simp_all add: spec_base_strength_def)

lemma score_nonempty:
  assumes "sigs \<noteq> []"
  shows "calculate_correlation_score sigs =
           min 1 ((1 - (1 - (\<Sum>s\<leftarrow>sigs. spec_base_strength (correlation_potential s))
                              / real (length sigs)) ^ length sigs)
                  * (1 + 0.3 * (real (card (layer ` set sigs)) - 1)))"
proof -
  have "card (layer ` set sigs) \<ge> 1"
    using assms by (simp add: Suc_le_eq card_gt_0_iff)
  then have "real_of_int (int (card (layer ` set sigs)) - 1) = real (card (layer ` set sigs)) - 1"
    by simp
  then show ?thesis
    using assms
    by (simp add: calculate_correlation_score_def Let_def base_scores_spec min.commute
          mult.commute)
qed

lemma score_one_solo:
  assumes "correlation_potential s = SOLO"
  shows "calculate_correlation_score [s] = 0.8"
  using assms by (simp add: calculate_correlation_score_def)

lemma score_two_solo_same:
  assumes "correlation_potential s1 = SOLO" "correlation_potential s2 = SOLO"
    and "layer s1 = layer s2"
  shows "calculate_correlation_score [s1, s2] = 0.96"
  using assms by (simp add: calculate_correlation_score_def power2_eq_square)

lemma score_two_solo_distinct:
  assumes "correlation_potential s1 = SOLO" "correlation_potential s2 = SOLO"
    and "layer s1 \<noteq> layer s2"
  shows "calculate_correlation_score [s1, s2] = 1"
  using assms by (simp add: calculate_correlation_score_def power2_eq_square)

text \<open>
  Claim C1.  The score of the empty list is 0 (the guard of the first line).  The score of a
  non-empty list of \<open>n\<close> signals is \<open>min 1 ((1 - (1 - avg) ^ n) * (1 + 0.3 * (L - 1)))\<close>, where
  \<open>avg\<close> is the mean of the base strengths (SOLO 0.8, PAIR 0.4, MULTI 0.2, WEAK 0.1) and
  \<open>L\<close> the number of distinct layers.  One SOLO signal scores 0.8, two SOLO signals of one
  layer 0.96, two SOLO signals of two layers 1.
\<close>

theorem calculate_correlation_score_formula:
  "calculate_correlation_score [] = 0
   \<and> (sigs \<noteq> [] \<longrightarrow>
        calculate_correlation_score sigs =
          min 1 ((1 - (1 - (\<Sum>s\<leftarrow>sigs. spec_base_strength (correlation_potential s))
                             / real (length sigs)) ^ length sigs)
                 * (1 + 0.3 * (real (card (layer ` set sigs)) - 1))))
   \<and> (correlation_potential s1 = SOLO \<longrightarrow> calculate_correlation_score [s1] = 0.8)
   \<and> (correlation_potential s1 = SOLO \<and> correlation_potential s2 = SOLO
        \<and> layer s1 = layer s2 \<longrightarrow> calculate_correlation_score [s1, s2] = 0.96)
   \<and> (correlation_potential s1 = SOLO \<and> correlation_potential s2 = SOLO
        \<and> layer s1 \<noteq> layer s2 \<longrightarrow> calculate_correlation_score [s1, s2] = 1)"
proof -
  have "calculate_correlation_score [] = 0"
    by (simp add: calculate_correlation_score_def)
  then show ?thesis
    using score_nonempty [of sigs] score_one_solo [of s1] score_two_solo_same [of s1 s2]
      score_two_solo_distinct [of s1 s2]
    by blast
qed

theorem calculate_correlation_score_formula_witness:
  "calculate_correlation_score
     [sample_signal ''a'' DNS 0 PAIR, sample_signal ''b'' NETWORK 5 WEAK] = 91 / 160
   \<and> calculate_correlation_score [sample_signal ''a'' DNS 0 SOLO] = 0.8
   \<and> calculate_correlation_score
        [sample_signal ''a'' DNS 0 SOLO, sample_signal ''b'' DNS 5 SOLO] = 0.96
   \<and> calculate_correlation_score
        [sample_signal ''a'' DNS 0 SOLO, sample_signal ''b'' NETWORK 5 SOLO] = 1"
  using
    calculate_correlation_score_formula
      [of "[sample_signal ''a'' DNS 0 PAIR, sample_signal ''b'' NETWORK 5 WEAK]"
          "sample_signal ''a'' DNS 0 SOLO" "sample_signal ''b'' DNS 5 SOLO"]
    calculate_correlation_score_formula
      [of "[]" "sample_signal ''a'' DNS 0 SOLO" "sample_signal ''b'' NETWORK 5 SOLO"]
  by (simp add: sample_signal_def spec_base_strength_def power2_eq_square)

text \<open>
  Claim C2.  The confidence is CRITICAL exactly from 0.9 up, HIGH exactly on [0.7, 0.9),
  MEDIUM exactly on [0.4, 0.7) and LOW exactly below 0.4; each boundary belongs to the
  higher band.
\<close>

theorem assess_attribution_confidence_bands:
  "(assess_attribution_confidence s = ''CRITICAL'' \<longleftrightarrow> s \<ge> 0.9)
   \<and> (assess_attribution_confidence s = ''HIGH'' \<longleftrightarrow> 0.7 \<le> s \<and> s < 0.9)
   \<and> (assess_attribution_confidence s = ''MEDIUM'' \<longleftrightarrow> 0.4 \<le> s \<and> s < 0.7)
   \<and> (assess_attribution_confidence s = ''LOW'' \<longleftrightarrow> s < 0.4)
   \<and> assess_attribution_confidence 0.9 = ''CRITICAL''
   \<and> assess_attribution_confidence 0.89999 = ''HIGH''
   \<and> assess_attribution_confidence 0.7 = ''HIGH''
   \<and> assess_attribution_confidence 0.4 = ''MEDIUM''
   \<and> assess_attribution_confidence 0.39999 = ''LOW''"
  by (simp add: assess_attribution_confidence_def)

text \<open>
  Claim C3.  The risk level is decided in this order: CRITICAL when the confidence is
  CRITICAL or the count is at least 4; otherwise HIGH when the confidence is HIGH or the
  count is at least 3; otherwise MEDIUM when the confidence is MEDIUM; otherwise LOW.  A
  count of 5 with confidence LOW gives the CRITICAL level.
\<close>

theorem assess_risk_level_precedence:
  "(assess_risk_level c k = ''CRITICAL - OPSEC COMPROMISED'' \<longleftrightarrow> c = ''CRITICAL'' \<or> k \<ge> 4)
   \<and> (assess_risk_level c k = ''HIGH - ATTRIBUTION LIKELY'' \<longleftrightarrow>
        \<not> (c = ''CRITICAL'' \<or> k \<ge> 4) \<and> (c = ''HIGH'' \<or> k \<ge> 3))
   \<and> (assess_risk_level c k = ''MEDIUM - CORRELATION POSSIBLE'' \<longleftrightarrow>
        \<not> (c = ''CRITICAL'' \<or> k \<ge> 4) \<and> \<not> (c = ''HIGH'' \<or> k \<ge> 3) \<and> c = ''MEDIUM'')
   \<and> (assess_risk_level c k = ''LOW - INSUFFICIENT CORRELATION'' \<longleftrightarrow>
        \<not> (c = ''CRITICAL'' \<or> k \<ge> 4) \<and> \<not> (c = ''HIGH'' \<or> k \<ge> 3) \<and> c \<noteq> ''MEDIUM'')
   \<and> assess_risk_level ''LOW'' 5 = ''CRITICAL - OPSEC COMPROMISED''"
  by (simp add: assess_risk_level_def)

section \<open>Dictionaries of lists: properties\<close>

text \<open>
  What the grouping code builds: the keys are distinct and in order of first occurrence, and
  the list under a key holds exactly the elements with that key, in their order.
\<close>

lemma map_of_dict_append:
  "map_of (dict_append d k v) =
     (map_of d)(k \<mapsto> (case map_of d k of None \<Rightarrow> [v] | Some vs \<Rightarrow> vs @ [v]))"
  by (induction d k v rule: dict_append.induct) (auto simp: fun_eq_iff)

lemma keys_dict_append:
  "map fst (dict_append d k v) = (if k \<in> set (map fst d) then map fst d else map fst d @ [k])"
  by (induction d k v rule: dict_append.induct) auto

lemma distinct_dict_append:
  "distinct (map fst d) \<Longrightarrow> distinct (map fst (dict_append d k v))"
  by (simp add: keys_dict_append)

lemma group_by_snoc: "group_by f (xs @ [x]) = dict_append (group_by f xs) (f x) x"
  by (simp add: group_by_def)

lemma group_by_Nil: "group_by f [] = []"
  by (simp add: group_by_def)

lemma distinct_group_by: "distinct (map fst (group_by f xs))"
  by (induction xs rule: rev_induct) (simp_all add: group_by_Nil group_by_snoc distinct_dict_append)

lemma filter_key_absent: "k \<notin> f ` set xs \<Longrightarrow> filter (\<lambda>x. f x = k) xs = []"
  by (induction xs) auto

lemma map_of_group_by:
  "map_of (group_by f xs) k =
     (if k \<in> f ` set xs then Some (filter (\<lambda>x. f x = k) xs) else None)"
proof (induction xs arbitrary: k rule: rev_induct)
  case Nil
  show ?case by (simp add: group_by_Nil)
next
  case (snoc x xs)
  show ?case
    by (auto simp: group_by_snoc map_of_dict_append snoc filter_key_absent)
qed

lemma dict_get_group_by: "dict_get (group_by f xs) k = filter (\<lambda>x. f x = k) xs"
  by (auto simp: dict_get_def map_of_group_by filter_key_absent)

lemma keys_group_by: "set (map fst (group_by f xs)) = f ` set xs"
proof -
  have "set (map fst (group_by f xs)) = dom (map_of (group_by f xs))"
    by (simp add: dom_map_of_conv_image_fst)
  also have "\<dots> = f ` set xs"
    by (auto simp: dom_def map_of_group_by)
  finally show ?thesis .
qed

lemma length_group_by: "length (group_by f xs) = card (f ` set xs)"
proof -
  have "length (group_by f xs) = length (map fst (group_by f xs))" by simp
  also have "\<dots> = card (set (map fst (group_by f xs)))"
    using distinct_group_by [of f xs] by (simp only: distinct_card)
  finally show ?thesis by (simp only: keys_group_by)
qed

lemma group_by_member:
  assumes "(k, vs) \<in> set (group_by f xs)"
  shows "vs = filter (\<lambda>x. f x = k) xs \<and> vs \<noteq> [] \<and> k \<in> f ` set xs"
proof -
  have "map_of (group_by f xs) k = Some vs"
    using assms distinct_group_by [of f xs] by simp
  then have k: "k \<in> f ` set xs" and vs: "vs = filter (\<lambda>x. f x = k) xs"
    by (auto simp: map_of_group_by split: if_splits)
  from k have "filter (\<lambda>x. f x = k) xs \<noteq> []"
    by (auto simp: filter_empty_conv)
  with k vs show ?thesis by simp
qed

lemma keys_group_by_order: "map fst (group_by f xs) = rev (remdups (rev (map f xs)))"
proof (induction xs rule: rev_induct)
  case Nil
  show ?case by (simp add: group_by_Nil)
next
  case (snoc x xs)
  have "set (map fst (group_by f xs)) = f ` set xs" by (rule keys_group_by)
  then show ?case
    using snoc by (auto simp: group_by_snoc keys_dict_append)
qed

section \<open>Strings: properties\<close>

lemma starts_with_iff: "starts_with sub s \<longleftrightarrow> (\<exists>v. s = sub @ v)"
  by (induction sub s rule: starts_with.induct) auto

lemma str_in_iff: "str_in sub s \<longleftrightarrow> (\<exists>u v. s = u @ sub @ v)"
proof (induction s)
  case Nil
  show ?case by auto
next
  case (Cons c cs)
  have "(\<exists>u v. c # cs = u @ sub @ v) \<longleftrightarrow> (\<exists>v. c # cs = sub @ v) \<or> (\<exists>u v. cs = u @ sub @ v)"
  proof
    assume "\<exists>u v. c # cs = u @ sub @ v"
    then obtain u v where uv: "c # cs = u @ sub @ v" by blast
    show "(\<exists>v. c # cs = sub @ v) \<or> (\<exists>u v. cs = u @ sub @ v)"
    proof (cases u)
      case Nil
      with uv show ?thesis by auto
    next
      case (Cons a u')
      with uv have "cs = u' @ sub @ v" by simp
      then show ?thesis by blast
    qed
  next
    assume "(\<exists>v. c # cs = sub @ v) \<or> (\<exists>u v. cs = u @ sub @ v)"
    then show "\<exists>u v. c # cs = u @ sub @ v"
    proof
      assume "\<exists>v. c # cs = sub @ v"
      then obtain v where "c # cs = [] @ sub @ v" by auto
      then show ?thesis by blast
    next
      assume "\<exists>u v. cs = u @ sub @ v"
      then obtain u v where "c # cs = (c # u) @ sub @ v" by auto
      then show ?thesis by blast
    qed
  qed
  then show ?case
    by (simp add: Cons starts_with_iff)
qed

lemma str_in_contains: "str_in sub s \<longleftrightarrow> contains s sub"
  by (simp add: str_in_iff contains_def)

lemma map_eq_append3:
  assumes "map f s = u' @ w @ v'"
  shows "\<exists>u t v. s = u @ t @ v \<and> map f t = w"
proof -
  let ?t = "take (length w) (drop (length u') s)"
  have "map f ?t = take (length w) (drop (length u') (map f s))"
    by (simp only: take_map drop_map)
  also have "\<dots> = w"
    by (simp only: assms) simp
  finally have t: "map f ?t = w" .
  have "s = take (length u') s @ ?t @ drop (length w) (drop (length u') s)"
    by (simp only: append_take_drop_id)
  with t show ?thesis by (intro exI conjI)
qed

lemma str_in_lower_iff: "str_in (py_lower sub) (py_lower s) \<longleftrightarrow> contains_ignoring_case s sub"
proof
  assume "str_in (py_lower sub) (py_lower s)"
  then obtain u' v' where "map lower_char s = u' @ map lower_char sub @ v'"
    unfolding str_in_iff py_lower_def by blast
  then obtain u t v where "s = u @ t @ v" "map lower_char t = map lower_char sub"
    using map_eq_append3 [of lower_char s u' "map lower_char sub" v'] by blast
  then show "contains_ignoring_case s sub"
    unfolding contains_ignoring_case_def py_lower_def by blast
next
  assume "contains_ignoring_case s sub"
  then obtain u t v where "s = u @ t @ v" "py_lower t = py_lower sub"
    unfolding contains_ignoring_case_def by blast
  then have "py_lower s = py_lower u @ py_lower sub @ py_lower v"
    by (simp add: py_lower_def)
  then show "str_in (py_lower sub) (py_lower s)"
    unfolding str_in_iff by blast
qed

lemma py_lower_as: "py_lower ''as'' = ''as''"
  by (simp add: py_lower_def lower_char_def)

lemma str_in_as_lower: "str_in ''as'' (py_lower s) \<longleftrightarrow> contains_ignoring_case s ''as''"
  using str_in_lower_iff [of "''as''" s] by (simp only: py_lower_as)

lemma of_char_lower_char:
  "(of_char (lower_char c) :: nat) =
     (if 65 \<le> (of_char c :: nat) \<and> (of_char c :: nat) \<le> 90 then of_char c + 32 else of_char c)"
  unfolding lower_char_def
  by (simp only: of_char_of if_distrib [of of_char] cong: if_cong) auto

lemma lower_char_eq_iff:
  "lower_char c = d \<longleftrightarrow>
     (of_char d :: nat) =
       (if 65 \<le> (of_char c :: nat) \<and> (of_char c :: nat) \<le> 90 then of_char c + 32 else of_char c)"
proof -
  have "lower_char c = d \<longleftrightarrow> (of_char (lower_char c) :: nat) = of_char d"
    by (simp only: of_char_eq_iff)
  also have "\<dots> \<longleftrightarrow> (of_char d :: nat) = of_char (lower_char c)"
    by (rule eq_commute)
  finally show ?thesis
    by (simp only: of_char_lower_char)
qed

lemma char_eq_nat: "c = d \<longleftrightarrow> (of_char c :: nat) = of_char d"
  by (simp only: of_char_eq_iff)

lemma lower_char_eq_a: "lower_char c = CHR ''a'' \<longleftrightarrow> c = CHR ''a'' \<or> c = CHR ''A''"
proof -
  have "(of_char (CHR ''a'') :: nat) = 97" "(of_char (CHR ''A'') :: nat) = 65" by simp_all
  then show ?thesis
    unfolding lower_char_eq_iff char_eq_nat [of c] by presburger
qed

lemma lower_char_eq_s: "lower_char c = CHR ''s'' \<longleftrightarrow> c = CHR ''s'' \<or> c = CHR ''S''"
proof -
  have "(of_char (CHR ''s'') :: nat) = 115" "(of_char (CHR ''S'') :: nat) = 83" by simp_all
  then show ?thesis
    unfolding lower_char_eq_iff char_eq_nat [of c] by presburger
qed

lemma py_lower_eq_as:
  "py_lower t = ''as'' \<longleftrightarrow> t = ''as'' \<or> t = ''As'' \<or> t = ''aS'' \<or> t = ''AS''"
proof -
  have "py_lower t = ''as'' \<longleftrightarrow>
          (\<exists>c d. t = [c, d] \<and> lower_char c = CHR ''a'' \<and> lower_char d = CHR ''s'')"
    unfolding py_lower_def map_eq_Cons_conv by auto
  then show ?thesis
    unfolding lower_char_eq_a lower_char_eq_s by blast
qed

text \<open>
  Containing \<open>as\<close> up to case is containing one of the four spellings \<open>as\<close>, \<open>As\<close>, \<open>aS\<close>,
  \<open>AS\<close>.
\<close>

lemma contains_ignoring_case_as:
  "contains_ignoring_case s ''as'' \<longleftrightarrow>
     contains s ''as'' \<or> contains s ''As'' \<or> contains s ''aS'' \<or> contains s ''AS''"
  unfolding contains_ignoring_case_def contains_def py_lower_as py_lower_eq_as by blast

section \<open>Cross-layer pass: properties\<close>

lemma make_result_simps:
  "signals (make_result g t e) = g"
  "correlation_type (make_result g t e) = t"
  "explanation (make_result g t e) = e"
  "correlation_score (make_result g t e) = calculate_correlation_score g"
  "attribution_confidence (make_result g t e)
     = assess_attribution_confidence (calculate_correlation_score g)"
  "risk_level (make_result g t e)
     = assess_risk_level (assess_attribution_confidence (calculate_correlation_score g))
         (int (length g))"
  by (simp_all add: make_result_def Let_def)

text \<open>The pass in closed form: each rule looks at a filter of the accumulated signals.\<close>

lemma correlate_cross_layer_eq:
  "correlate_cross_layer sigs =
     (if dns_resolver_matches sigs \<noteq> [] \<and> network_as_matches sigs \<noteq> []
      then [make_result (dns_resolver_matches sigs @ network_as_matches sigs)
              ''DNS_NETWORK_CORRELATION''
              ''DNS resolver and network AS signals enable infrastructure correlation'']
      else [])
     @ (if timezone_matches sigs \<noteq> [] \<and> timing_matches sigs \<noteq> []
        then [make_result (timezone_matches sigs @ timing_matches sigs)
                ''TIMEZONE_TIMING_CORRELATION''
                ''Timezone and activity timing signals enable geographic/human attribution'']
        else [])"
  unfolding correlate_cross_layer_def Let_def dict_get_group_by filter_filter
    str_in_as_lower
  unfolding str_in_contains
    dns_resolver_matches_def network_as_matches_def timezone_matches_def timing_matches_def
  by (rule refl)

lemma dns_network_results_eq:
  "dns_network_results sigs =
     (if dns_resolver_matches sigs \<noteq> [] \<and> network_as_matches sigs \<noteq> []
      then [make_result (dns_resolver_matches sigs @ network_as_matches sigs)
              ''DNS_NETWORK_CORRELATION''
              ''DNS resolver and network AS signals enable infrastructure correlation'']
      else [])"
  by (simp add: dns_network_results_def correlate_cross_layer_eq make_result_simps)

text \<open>
  Claim C5.  The cross-layer pass emits exactly one DNS_NETWORK_CORRELATION result if and
  only if some DNS-layer signal's identifier contains \<open>resolver\<close> or \<open>public_resolver\<close> and
  some NETWORK-layer signal's identifier contains \<open>as\<close> up to case.  The signals of that
  result are the DNS matches followed by the NETWORK matches.  When either subset is empty
  the pass emits no result of that type.
\<close>

theorem correlate_cross_layer_dns_network:
  "(length (dns_network_results sigs) = 1 \<longleftrightarrow>
      (\<exists>s \<in> set sigs. layer s = DNS
          \<and> (contains (signal_id s) ''resolver'' \<or> contains (signal_id s) ''public_resolver''))
      \<and> (\<exists>s \<in> set sigs. layer s = NETWORK \<and> contains_ignoring_case (signal_id s) ''as''))
   \<and> (dns_resolver_matches sigs \<noteq> [] \<and> network_as_matches sigs \<noteq> [] \<longrightarrow>
        map signals (dns_network_results sigs)
          = [dns_resolver_matches sigs @ network_as_matches sigs])
   \<and> (dns_resolver_matches sigs = [] \<or> network_as_matches sigs = [] \<longrightarrow>
        dns_network_results sigs = [])
   \<and> length (dns_network_results sigs) \<le> 1"
proof -
  let ?D = "dns_resolver_matches sigs" and ?N = "network_as_matches sigs"
  have d: "?D \<noteq> [] \<longleftrightarrow>
             (\<exists>s \<in> set sigs. layer s = DNS
                \<and> (contains (signal_id s) ''resolver'' \<or> contains (signal_id s) ''public_resolver''))"
    unfolding dns_resolver_matches_def filter_empty_conv by blast
  have n: "?N \<noteq> [] \<longleftrightarrow>
             (\<exists>s \<in> set sigs. layer s = NETWORK \<and> contains_ignoring_case (signal_id s) ''as'')"
    unfolding network_as_matches_def filter_empty_conv by blast
  have one: "length (dns_network_results sigs) = 1 \<longleftrightarrow> ?D \<noteq> [] \<and> ?N \<noteq> []"
    by (simp add: dns_network_results_eq)
  have group: "?D \<noteq> [] \<and> ?N \<noteq> [] \<longrightarrow> map signals (dns_network_results sigs) = [?D @ ?N]"
    by (simp add: dns_network_results_eq make_result_simps)
  have none: "?D = [] \<or> ?N = [] \<longrightarrow> dns_network_results sigs = []"
    by (auto simp: dns_network_results_eq)
  have most: "length (dns_network_results sigs) \<le> 1"
    by (simp add: dns_network_results_eq)
  from one have "length (dns_network_results sigs) = 1 \<longleftrightarrow>
      (\<exists>s \<in> set sigs. layer s = DNS
          \<and> (contains (signal_id s) ''resolver'' \<or> contains (signal_id s) ''public_resolver''))
      \<and> (\<exists>s \<in> set sigs. layer s = NETWORK \<and> contains_ignoring_case (signal_id s) ''as'')"
    by (simp only: d n)
  with group none most show ?thesis by (intro conjI)
qed

theorem correlate_cross_layer_dns_network_witness:
  "length (dns_network_results
     [sample_signal ''public_resolver_8_8_8_8'' DNS 0 PAIR,
      sample_signal ''doh_disabled'' DNS 1 MULTI,
      sample_signal ''AS_path_length'' NETWORK 2 MULTI]) = 1
   \<and> map signals (dns_network_results
        [sample_signal ''public_resolver_8_8_8_8'' DNS 0 PAIR,
         sample_signal ''doh_disabled'' DNS 1 MULTI,
         sample_signal ''AS_path_length'' NETWORK 2 MULTI])
      = [ [sample_signal ''public_resolver_8_8_8_8'' DNS 0 PAIR,
          sample_signal ''AS_path_length'' NETWORK 2 MULTI]]
   \<and> dns_network_results [sample_signal ''public_resolver_8_8_8_8'' DNS 0 PAIR] = []
   \<and> dns_network_results [sample_signal ''AS_path_length'' NETWORK 2 MULTI] = []"
proof -
  let ?d = "sample_signal ''public_resolver_8_8_8_8'' DNS 0 PAIR"
  let ?x = "sample_signal ''doh_disabled'' DNS 1 MULTI"
  let ?n = "sample_signal ''AS_path_length'' NETWORK 2 MULTI"
  have ev:
    "dns_resolver_matches [?d, ?x, ?n] = [?d]" "network_as_matches [?d, ?x, ?n] = [?n]"
    "dns_resolver_matches [?d] = [?d]" "network_as_matches [?d] = []"
    "dns_resolver_matches [?n] = []" "network_as_matches [?n] = [?n]"
    unfolding dns_resolver_matches_def network_as_matches_def
      str_in_as_lower [symmetric] str_in_contains [symmetric]
    by code_simp+
  have a: "map signals (dns_network_results [?d, ?x, ?n]) = [ [?d, ?n]]"
    using correlate_cross_layer_dns_network [of "[?d, ?x, ?n]", THEN conjunct2, THEN conjunct1]
    unfolding ev by simp
  have "length (map signals (dns_network_results [?d, ?x, ?n])) = 1"
    by (simp only: a) simp
  then have l: "length (dns_network_results [?d, ?x, ?n]) = 1"
    by (simp only: length_map)
  have b: "dns_network_results [?d] = []"
    using correlate_cross_layer_dns_network
      [of "[?d]", THEN conjunct2, THEN conjunct2, THEN conjunct1]
    unfolding ev by simp
  have c: "dns_network_results [?n] = []"
    using correlate_cross_layer_dns_network
      [of "[?n]", THEN conjunct2, THEN conjunct2, THEN conjunct1]
    unfolding ev by simp
  from l a b c show ?thesis by (intro conjI)
qed

section \<open>Multi-signal pass: properties\<close>

text \<open>
  The names in the list are upper case and the values of the enumeration lower case, so the
  key of the sort raises for every signal.
\<close>

lemma potential_key_raises: "potential_key s = Inl ValueError"
  by (cases "correlation_potential s") (simp_all add: potential_key_def)

lemma py_sorted_raises:
  assumes "xs \<noteq> []" and "\<And>x. f x = Inl e"
  shows "py_sorted f xs = Inl e"
  using assms by (cases xs) (simp_all add: py_sorted_def)

lemma representatives_raises:
  assumes "groups \<noteq> []" and "\<forall>(l, g) \<in> set groups. g \<noteq> []" and "\<And>x. key x = Inl e"
  shows "representatives key groups = Inl e"
proof (cases groups)
  case Nil
  with assms(1) show ?thesis by simp
next
  case (Cons p rest)
  obtain l g where p: "p = (l, g)" by (cases p)
  with Cons assms(2) have "g \<noteq> []" by auto
  then have "py_sorted key g = Inl e"
    using assms(3) by (rule py_sorted_raises)
  with Cons p show ?thesis by simp
qed

lemma group_by_nonempty_groups: "\<forall>(l, g) \<in> set (group_by f xs). g \<noteq> []"
  using group_by_member [of _ _ f xs] by blast

lemma correlate_multi_signal_eq:
  "correlate_multi_signal sigs =
     (if 3 \<le> card (layer ` set sigs) then Inl ValueError else Inr [])"
proof (cases "3 \<le> card (layer ` set sigs)")
  case True
  then have len: "3 \<le> length (group_by layer sigs)"
    by (simp only: length_group_by)
  then have "group_by layer sigs \<noteq> []" by auto
  then have "representatives potential_key (group_by layer sigs) = Inl ValueError"
    using group_by_nonempty_groups potential_key_raises by (rule representatives_raises)
  with len True show ?thesis
    by (simp add: correlate_multi_signal_def correlate_multi_signal_by_def)
next
  case False
  then have "\<not> 3 \<le> length (group_by layer sigs)"
    by (simp add: length_group_by)
  with False show ?thesis
    by (simp add: correlate_multi_signal_def correlate_multi_signal_by_def)
qed

text \<open>
  Claim C6.  The claim asks for one MULTI_LAYER_CONVERGENCE result whenever the signals span
  at least three layers.  In the source the pass raises \<open>ValueError\<close> on every such input,
  from the key of the sort; with fewer than three layers it returns the empty list.
\<close>

theorem correlate_multi_signal_raises:
  "(3 \<le> card (layer ` set sigs) \<longrightarrow> correlate_multi_signal sigs = Inl ValueError)
   \<and> (card (layer ` set sigs) < 3 \<longrightarrow> correlate_multi_signal sigs = Inr [])"
  by (simp add: correlate_multi_signal_eq)

theorem correlate_multi_signal_raises_witness:
  "correlate_multi_signal
     [sample_signal ''timezone'' USERLAND 0 PAIR,
      sample_signal ''doh_disabled'' DNS 1 MULTI,
      sample_signal ''as_path_length'' NETWORK 2 MULTI] = Inl ValueError
   \<and> correlate_multi_signal
       [sample_signal ''timezone'' USERLAND 0 PAIR,
        sample_signal ''doh_disabled'' DNS 1 MULTI] = Inr []"
  using
    correlate_multi_signal_raises
      [of "[sample_signal ''timezone'' USERLAND 0 PAIR,
            sample_signal ''doh_disabled'' DNS 1 MULTI,
            sample_signal ''as_path_length'' NETWORK 2 MULTI]"]
    correlate_multi_signal_raises
      [of "[sample_signal ''timezone'' USERLAND 0 PAIR,
            sample_signal ''doh_disabled'' DNS 1 MULTI]"]
  by (simp add: sample_signal_def)

text \<open>
  For any key that returns, what the loop selects: one signal of each group, so the
  representatives carry the layers of the groups, all distinct.
\<close>

lemma compute_keys_Inr: "compute_keys f xs = Inr ks \<Longrightarrow> map snd ks = xs"
  by (induction xs arbitrary: ks) (auto split: sum.splits)

lemma py_sorted_Inr:
  assumes "py_sorted f xs = Inr ys"
  shows "set ys = set xs"
proof -
  from assms obtain ks where ks: "compute_keys f xs = Inr ks" and ys: "ys = map snd (sort_key fst ks)"
    by (auto simp: py_sorted_def split: sum.splits)
  have "set ys = snd ` set ks" by (simp add: ys)
  also have "\<dots> = set (map snd ks)" by simp
  finally show ?thesis by (simp only: compute_keys_Inr [OF ks])
qed

lemma first_item_Inr: "first_item xs = Inr x \<Longrightarrow> x \<in> set xs"
  by (auto simp: first_item_def split: list.splits)

lemma representatives_Cons_Inr:
  assumes "representatives key ((l, g) # groups) = Inr rs"
  obtains ys r rs' where "py_sorted key g = Inr ys" and "first_item ys = Inr r"
    and "representatives key groups = Inr rs'" and "rs = r # rs'"
proof (cases "py_sorted key g")
  case (Inl e)
  with assms show ?thesis by simp
next
  case ys: (Inr ys)
  show ?thesis
  proof (cases "first_item ys")
    case (Inl e)
    with assms ys show ?thesis by simp
  next
    case r: (Inr r)
    show ?thesis
    proof (cases "representatives key groups")
      case (Inl e)
      with assms ys r show ?thesis by simp
    next
      case (Inr rs')
      with assms ys r have "rs = r # rs'" by simp
      with ys r Inr show ?thesis by (rule that)
    qed
  qed
qed

lemma representatives_Inr:
  "representatives key groups = Inr rs \<Longrightarrow> list_all2 (\<lambda>r (l, g). r \<in> set g) rs groups"
proof (induction groups arbitrary: rs)
  case Nil
  then show ?case by simp
next
  case (Cons p groups)
  obtain l g where p: "p = (l, g)" by (cases p)
  from Cons.prems have "representatives key ((l, g) # groups) = Inr rs"
    by (simp only: p)
  then obtain ys r rs' where
    ys: "py_sorted key g = Inr ys" and r: "first_item ys = Inr r"
    and rs': "representatives key groups = Inr rs'" and rs: "rs = r # rs'"
    by (rule representatives_Cons_Inr)
  from r have "r \<in> set ys" by (rule first_item_Inr)
  then have "r \<in> set g" by (simp only: py_sorted_Inr [OF ys])
  moreover have "list_all2 (\<lambda>r (l, g). r \<in> set g) rs' groups"
    using rs' by (rule Cons.IH)
  ultimately show ?case
    by (simp add: p rs)
qed

lemma list_all2_layers:
  "list_all2 (\<lambda>r p. layer r = fst p \<and> r \<in> A) rs ps
     \<Longrightarrow> map layer rs = map fst ps \<and> set rs \<subseteq> A"
  by (induction rs ps rule: list_all2_induct) auto

lemma representatives_layers:
  assumes "representatives key (group_by layer sigs) = Inr rs"
  shows "map layer rs = map fst (group_by layer sigs) \<and> set rs \<subseteq> set sigs"
proof -
  have "list_all2 (\<lambda>r (l, g). r \<in> set g) rs (group_by layer sigs)"
    using assms by (rule representatives_Inr)
  then have "list_all2 (\<lambda>r p. layer r = fst p \<and> r \<in> set sigs) rs (group_by layer sigs)"
  proof (rule list.rel_mono_strong)
    fix r p
    assume "r \<in> set rs" and "p \<in> set (group_by layer sigs)"
      and "(case p of (l, g) \<Rightarrow> r \<in> set g)"
    then show "layer r = fst p \<and> r \<in> set sigs"
      using group_by_member [of "fst p" "snd p" layer sigs] by (cases p) auto
  qed
  then show ?thesis
    by (rule list_all2_layers)
qed

lemma correlate_multi_signal_by_Inr:
  assumes "correlate_multi_signal_by key sigs = Inr cs" and "c \<in> set cs"
  shows "correlation_type c = ''MULTI_LAYER_CONVERGENCE''
         \<and> 3 \<le> length (signals c) \<and> 3 \<le> card (layer ` set (signals c))
         \<and> c = make_result (signals c) (correlation_type c) (explanation c)"
proof (cases "3 \<le> length (group_by layer sigs)")
  case False
  then have "correlate_multi_signal_by key sigs = Inr []"
    by (simp add: correlate_multi_signal_by_def)
  with assms show ?thesis by simp
next
  case len: True
  show ?thesis
  proof (cases "representatives key (group_by layer sigs)")
    case (Inl e)
    with len have "correlate_multi_signal_by key sigs = Inl e"
      by (simp add: correlate_multi_signal_by_def)
    with assms show ?thesis by simp
  next
    case (Inr rs)
    show ?thesis
    proof (cases "3 \<le> length rs")
      case False
      with len Inr have "correlate_multi_signal_by key sigs = Inr []"
        by (simp add: correlate_multi_signal_by_def)
      with assms show ?thesis by simp
    next
      case len': True
      define e where "e = ''Signals from '' @ py_str (length rs)
                     @ '' different layers converge for high-confidence attribution''"
      from len len' Inr
      have "correlate_multi_signal_by key sigs
              = Inr [make_result rs ''MULTI_LAYER_CONVERGENCE'' e]"
        by (simp add: correlate_multi_signal_by_def e_def)
      with assms have c: "c = make_result rs ''MULTI_LAYER_CONVERGENCE'' e" by auto
      have layers: "map layer rs = map fst (group_by layer sigs)"
        using representatives_layers [OF Inr] by (rule conjunct1)
      have "card (layer ` set rs) = card (set (map layer rs))" by simp
      also have "\<dots> = length (map fst (group_by layer sigs))"
        unfolding layers using distinct_group_by [of layer sigs] by (rule distinct_card)
      finally have "3 \<le> card (layer ` set rs)" using len by simp
      with len' show ?thesis
        unfolding c by (simp add: make_result_simps)
    qed
  qed
qed

section \<open>Running the passes: properties\<close>

lemma correlate_all_by_eq:
  "correlate_all_by key st =
     (case correlate_multi_signal_by key (engine_signals st) of
        Inl e \<Rightarrow>
          (st\<lparr>correlations := correlate_temporal (engine_signals st)
                                 @ correlate_cross_layer (engine_signals st)\<rparr>,
           Inl e)
      | Inr multi_corrs \<Rightarrow>
          (st\<lparr>correlations := correlate_temporal (engine_signals st)
                                 @ correlate_cross_layer (engine_signals st) @ multi_corrs\<rparr>,
           Inr (correlate_temporal (engine_signals st)
                  @ correlate_cross_layer (engine_signals st) @ multi_corrs)))"
  by (simp add: correlate_all_by_def Let_def split: sum.splits)

text \<open>
  With a key that returns, the call stores and returns the three lists in order, whatever
  was stored before.
\<close>

lemma correlate_all_by_returns:
  assumes "correlate_multi_signal_by key (engine_signals st) = Inr multi_corrs"
  shows "correlate_all_by key st =
           (st\<lparr>correlations := correlate_temporal (engine_signals st)
                                  @ correlate_cross_layer (engine_signals st) @ multi_corrs\<rparr>,
            Inr (correlate_temporal (engine_signals st)
                   @ correlate_cross_layer (engine_signals st) @ multi_corrs))"
  by (simp add: correlate_all_by_eq assms)

lemma correlate_all_eq:
  "correlate_all st =
     (if 3 \<le> card (layer ` set (engine_signals st))
      then (st\<lparr>correlations := correlate_temporal (engine_signals st)
                                   @ correlate_cross_layer (engine_signals st)\<rparr>,
            Inl ValueError)
      else (st\<lparr>correlations := correlate_temporal (engine_signals st)
                                   @ correlate_cross_layer (engine_signals st)\<rparr>,
            Inr (correlate_temporal (engine_signals st)
                   @ correlate_cross_layer (engine_signals st))))"
proof -
  have "correlate_multi_signal_by potential_key (engine_signals st) =
          (if 3 \<le> card (layer ` set (engine_signals st)) then Inl ValueError else Inr [])"
    using correlate_multi_signal_eq [of "engine_signals st"]
    by (simp only: correlate_multi_signal_def)
  then show ?thesis
    by (simp add: correlate_all_def correlate_all_by_eq)
qed

text \<open>
  Claim C7.  The claim says that every call stores and returns the results of the three
  passes in order.  In the source a call on signals of at least three layers raises
  \<open>ValueError\<close> from the last pass and leaves the results of the first two passes stored;
  a call on signals of fewer than three layers discards what was stored, and stores and
  returns the temporal results followed by the cross-layer results.
\<close>

theorem correlate_all_raises:
  "(3 \<le> card (layer ` set (engine_signals st)) \<longrightarrow>
      snd (correlate_all st) = Inl ValueError
      \<and> correlations (fst (correlate_all st))
           = correlate_temporal (engine_signals st) @ correlate_cross_layer (engine_signals st))
   \<and> (card (layer ` set (engine_signals st)) < 3 \<longrightarrow>
        snd (correlate_all st)
          = Inr (correlate_temporal (engine_signals st) @ correlate_cross_layer (engine_signals st))
        \<and> correlations (fst (correlate_all st))
             = correlate_temporal (engine_signals st) @ correlate_cross_layer (engine_signals st))"
  by (simp add: correlate_all_eq)

theorem correlate_all_raises_witness:
  "snd (correlate_all
          \<lparr>engine_signals =
             [sample_signal ''timezone'' USERLAND 0 PAIR,
              sample_signal ''doh_disabled'' DNS 1 MULTI,
              sample_signal ''as_path_length'' NETWORK 2 MULTI],
           correlations = []\<rparr>) = Inl ValueError
   \<and> snd (correlate_all
            \<lparr>engine_signals = [sample_signal ''timezone'' USERLAND 0 PAIR],
             correlations = []\<rparr>) = Inr []"
proof -
  let ?s3 = "[sample_signal ''timezone'' USERLAND 0 PAIR,
              sample_signal ''doh_disabled'' DNS 1 MULTI,
              sample_signal ''as_path_length'' NETWORK 2 MULTI]"
  let ?s1 = "[sample_signal ''timezone'' USERLAND 0 PAIR]"
  have t: "correlate_temporal ?s1 = []"
    by (simp add: correlate_temporal_def group_by_def temporal_bucket_def)
  have x: "correlate_cross_layer ?s1 = []"
    by code_simp
  have c3: "3 \<le> card (layer ` set ?s3)"
    by (simp add: sample_signal_def)
  have c1: "card (layer ` set ?s1) < 3"
    by simp
  show ?thesis
    using correlate_all_raises [of "\<lparr>engine_signals = ?s3, correlations = []\<rparr>"]
      correlate_all_raises [of "\<lparr>engine_signals = ?s1, correlations = []\<rparr>"]
      c3 c1 t x
    by simp
qed

section \<open>Invariants of the stored results\<close>

lemma base_scores_range: "0 \<le> base_scores p \<and> base_scores p \<le> 1"
  by (cases p) simp_all

lemma sum_base_scores_range:
  "0 \<le> (\<Sum>s\<leftarrow>sigs. base_scores (correlation_potential s))
   \<and> (\<Sum>s\<leftarrow>sigs. base_scores (correlation_potential s)) \<le> real (length sigs)"
proof (induction sigs)
  case Nil
  show ?case by simp
next
  case (Cons s sigs)
  with base_scores_range [of "correlation_potential s"] show ?case by simp
qed

lemma calculate_correlation_score_range:
  "0 \<le> calculate_correlation_score sigs \<and> calculate_correlation_score sigs \<le> 1"
proof (cases "sigs = []")
  case True
  then show ?thesis by (simp add: calculate_correlation_score_def)
next
  case False
  define n where "n = length sigs"
  define avg where "avg = (\<Sum>s\<leftarrow>sigs. base_scores (correlation_potential s)) / real n"
  define m where "m = 1 + real_of_int (int (card (set (map layer sigs))) - 1) * (3 / 10 :: real)"
  from False have n: "0 < n" by (simp add: n_def)
  have avg: "0 \<le> avg \<and> avg \<le> 1"
    using sum_base_scores_range [of sigs] n by (simp add: avg_def n_def)
  then have "0 \<le> (1 - avg) ^ n \<and> (1 - avg) ^ n \<le> 1"
    by (simp add: power_le_one)
  then have pow: "0 \<le> 1 - (1 - avg) ^ n" by simp
  from False have "1 \<le> card (set (map layer sigs))"
    by (simp add: Suc_le_eq card_gt_0_iff)
  then have "0 \<le> m" by (simp add: m_def)
  with pow have "0 \<le> (1 - (1 - avg) ^ n) * m" by (rule mult_nonneg_nonneg)
  moreover have "calculate_correlation_score sigs = min ((1 - (1 - avg) ^ n) * m) 1"
    using False by (simp add: calculate_correlation_score_def Let_def avg_def n_def m_def)
  ultimately show ?thesis by simp
qed

text \<open>What the two always-returning passes emit.\<close>

lemma correlate_temporal_member:
  assumes "c \<in> set (correlate_temporal sigs)"
  shows "\<exists>k b e. (k, b) \<in> set (group_by bucket_key sigs) \<and> c = make_result b ''TEMPORAL'' e
           \<and> 2 \<le> length b \<and> 2 \<le> card (layer ` set b)"
proof -
  from assms obtain k b where kb: "(k, b) \<in> set (group_by bucket_key sigs)"
    and c: "c \<in> set (temporal_bucket b)"
    by (auto simp: correlate_temporal_def)
  from c have "2 \<le> length b \<and> 2 \<le> card (layer ` set b)
       \<and> (\<exists>e. c = make_result b ''TEMPORAL'' e)"
    by (auto simp: temporal_bucket_def Let_def split: if_splits)
  with kb show ?thesis by blast
qed

lemma two_layers:
  assumes "x \<in> set xs" "y \<in> set ys" "layer x \<noteq> layer y"
  shows "2 \<le> length (xs @ ys) \<and> 2 \<le> card (layer ` set (xs @ ys))"
proof -
  from assms(1,2) have "xs \<noteq> []" "ys \<noteq> []" by auto
  then have "1 \<le> length xs" "1 \<le> length ys"
    by (simp_all add: Suc_le_eq)
  then have len: "2 \<le> length (xs @ ys)" by simp
  have "{layer x, layer y} \<subseteq> layer ` set (xs @ ys)"
    using assms(1,2) by auto
  then have "card {layer x, layer y} \<le> card (layer ` set (xs @ ys))"
    by (intro card_mono) simp_all
  with assms(3) have "2 \<le> card (layer ` set (xs @ ys))" by simp
  with len show ?thesis by simp
qed

lemma matches_two_layers:
  assumes "filter (\<lambda>s. layer s = l1 \<and> P s) sigs \<noteq> []"
    and "filter (\<lambda>s. layer s = l2 \<and> Q s) sigs \<noteq> []" and "l1 \<noteq> l2"
  shows "2 \<le> length (filter (\<lambda>s. layer s = l1 \<and> P s) sigs @ filter (\<lambda>s. layer s = l2 \<and> Q s) sigs)
     \<and> 2 \<le> card (layer ` set (filter (\<lambda>s. layer s = l1 \<and> P s) sigs
                                    @ filter (\<lambda>s. layer s = l2 \<and> Q s) sigs))"
proof -
  from assms(1) obtain x where x: "x \<in> set (filter (\<lambda>s. layer s = l1 \<and> P s) sigs)"
    by (cases "filter (\<lambda>s. layer s = l1 \<and> P s) sigs") auto
  from assms(2) obtain y where y: "y \<in> set (filter (\<lambda>s. layer s = l2 \<and> Q s) sigs)"
    by (cases "filter (\<lambda>s. layer s = l2 \<and> Q s) sigs") auto
  from x y assms(3) have "layer x \<noteq> layer y" by simp
  with x y show ?thesis by (rule two_layers)
qed

lemma correlate_cross_layer_member:
  assumes "c \<in> set (correlate_cross_layer sigs)"
  shows "\<exists>g t e. c = make_result g t e \<and> t \<noteq> ''MULTI_LAYER_CONVERGENCE''
           \<and> 2 \<le> length g \<and> 2 \<le> card (layer ` set g)"
proof -
  have dn: "2 \<le> length (dns_resolver_matches sigs @ network_as_matches sigs)
        \<and> 2 \<le> card (layer ` set (dns_resolver_matches sigs @ network_as_matches sigs))"
    if "dns_resolver_matches sigs \<noteq> []" "network_as_matches sigs \<noteq> []"
    using that unfolding dns_resolver_matches_def network_as_matches_def
    by (intro matches_two_layers) simp_all
  have tt: "2 \<le> length (timezone_matches sigs @ timing_matches sigs)
        \<and> 2 \<le> card (layer ` set (timezone_matches sigs @ timing_matches sigs))"
    if "timezone_matches sigs \<noteq> []" "timing_matches sigs \<noteq> []"
    using that unfolding timezone_matches_def timing_matches_def
    by (intro matches_two_layers) simp_all
  from assms consider
    (dns) "dns_resolver_matches sigs \<noteq> []" "network_as_matches sigs \<noteq> []"
      "c = make_result (dns_resolver_matches sigs @ network_as_matches sigs)
             ''DNS_NETWORK_CORRELATION''
             ''DNS resolver and network AS signals enable infrastructure correlation''"
  | (tz) "timezone_matches sigs \<noteq> []" "timing_matches sigs \<noteq> []"
      "c = make_result (timezone_matches sigs @ timing_matches sigs)
             ''TIMEZONE_TIMING_CORRELATION''
             ''Timezone and activity timing signals enable geographic/human attribution''"
    unfolding correlate_cross_layer_eq by (auto split: if_splits)
  then show ?thesis
  proof cases
    case dns
    from dn [OF dns(1,2)] dns(3) show ?thesis by blast
  next
    case tz
    from tt [OF tz(1,2)] tz(3) show ?thesis by blast
  qed
qed

lemma stored_results:
  assumes "c \<in> set (correlations (fst (correlate_all_by key st)))"
  shows "c \<in> set (correlate_temporal (engine_signals st))
         \<or> c \<in> set (correlate_cross_layer (engine_signals st))
         \<or> (\<exists>ms. correlate_multi_signal_by key (engine_signals st) = Inr ms \<and> c \<in> set ms)"
proof (cases "correlate_multi_signal_by key (engine_signals st)")
  case (Inl e)
  with assms show ?thesis by (auto simp: correlate_all_by_eq)
next
  case (Inr ms)
  with assms show ?thesis by (auto simp: correlate_all_by_eq)
qed

lemma returned_results:
  assumes "snd (correlate_all_by key st) = Inr rs"
  shows "rs = correlations (fst (correlate_all_by key st))"
  using assms by (cases "correlate_multi_signal_by key (engine_signals st)")
    (auto simp: correlate_all_by_eq)

lemma stored_results_shape:
  assumes "c \<in> set (correlations (fst (correlate_all_by key st)))"
  shows "(\<exists>g t e. c = make_result g t e) \<and> 2 \<le> length (signals c)
         \<and> 2 \<le> card (layer ` set (signals c))
         \<and> (correlation_type c = ''MULTI_LAYER_CONVERGENCE'' \<longrightarrow>
               3 \<le> card (layer ` set (signals c)))"
proof -
  from stored_results [OF assms] consider
    (temporal) "c \<in> set (correlate_temporal (engine_signals st))"
  | (cross) "c \<in> set (correlate_cross_layer (engine_signals st))"
  | (multi) ms where "correlate_multi_signal_by key (engine_signals st) = Inr ms" "c \<in> set ms"
    by blast
  then show ?thesis
  proof cases
    case temporal
    then obtain b e where "c = make_result b ''TEMPORAL'' e" "2 \<le> length b"
      "2 \<le> card (layer ` set b)"
      using correlate_temporal_member by blast
    then show ?thesis by (auto simp: make_result_simps)
  next
    case cross
    then obtain g t e where "c = make_result g t e" "t \<noteq> ''MULTI_LAYER_CONVERGENCE''"
      "2 \<le> length g" "2 \<le> card (layer ` set g)"
      using correlate_cross_layer_member by blast
    then show ?thesis by (auto simp: make_result_simps)
  next
    case multi
    from correlate_multi_signal_by_Inr [OF multi]
    have "3 \<le> length (signals c)" "3 \<le> card (layer ` set (signals c))"
      "c = make_result (signals c) (correlation_type c) (explanation c)"
      by blast+
    then show ?thesis by (intro conjI impI exI [of _ "signals c"]) auto
  qed
qed

lemma make_result_consistent:
  assumes "c = make_result g t e"
  shows "0 \<le> correlation_score c \<and> correlation_score c \<le> 1
         \<and> attribution_confidence c = assess_attribution_confidence (correlation_score c)
         \<and> risk_level c = assess_risk_level (attribution_confidence c) (int (length (signals c)))"
  unfolding assms make_result_simps
  using calculate_correlation_score_range [of g] by simp

text \<open>
  Claim C9.  After a call of \<open>correlate_all\<close>, whether it returned or raised, every stored
  result has a score in [0, 1], the confidence of its score, and the risk level of its
  confidence and of the number of its signals.
\<close>

theorem correlate_all_results_consistent:
  "\<forall>c \<in> set (correlations (fst (correlate_all st))).
      0 \<le> correlation_score c \<and> correlation_score c \<le> 1
      \<and> attribution_confidence c = assess_attribution_confidence (correlation_score c)
      \<and> risk_level c = assess_risk_level (attribution_confidence c) (int (length (signals c)))"
proof
  fix c
  assume "c \<in> set (correlations (fst (correlate_all st)))"
  then have "c \<in> set (correlations (fst (correlate_all_by potential_key st)))"
    by (simp only: correlate_all_def)
  then obtain g t e where "c = make_result g t e"
    using stored_results_shape by blast
  then show "0 \<le> correlation_score c \<and> correlation_score c \<le> 1
      \<and> attribution_confidence c = assess_attribution_confidence (correlation_score c)
      \<and> risk_level c = assess_risk_level (attribution_confidence c) (int (length (signals c)))"
    by (rule make_result_consistent)
qed

text \<open>
  Claim C10.  Every result that \<open>correlate_all\<close> stores, and so every result it returns, has
  at least two signals of at least two distinct layers, and a result of type
  MULTI_LAYER_CONVERGENCE has signals of at least three distinct layers.  With the key of
  the source the last pass stores no result (Claim C6), so no stored result has that type;
  \<open>stored_results_shape\<close> above shows the three layers for every key that returns.
\<close>

theorem correlate_all_results_span:
  "(\<forall>c \<in> set (correlations (fst (correlate_all st))).
      2 \<le> length (signals c) \<and> 2 \<le> card (layer ` set (signals c))
      \<and> (correlation_type c = ''MULTI_LAYER_CONVERGENCE'' \<longrightarrow>
            3 \<le> card (layer ` set (signals c))))
   \<and> (\<forall>rs. snd (correlate_all st) = Inr rs \<longrightarrow>
         rs = correlations (fst (correlate_all st)))"
proof (intro conjI ballI allI impI)
  fix c
  assume "c \<in> set (correlations (fst (correlate_all st)))"
  then have c: "c \<in> set (correlations (fst (correlate_all_by potential_key st)))"
    by (simp only: correlate_all_def)
  from stored_results_shape [OF c] show "2 \<le> length (signals c)" by (elim conjE)
  from stored_results_shape [OF c] show "2 \<le> card (layer ` set (signals c))" by (elim conjE)
  assume "correlation_type c = ''MULTI_LAYER_CONVERGENCE''"
  with stored_results_shape [OF c] show "3 \<le> card (layer ` set (signals c))" by blast
next
  fix rs
  assume "snd (correlate_all st) = Inr rs"
  then show "rs = correlations (fst (correlate_all st))"
    unfolding correlate_all_def by (rule returned_results)
qed

lemma sample_temporal_result_stored:
  "sample_temporal_result \<in> set (correlations (fst (correlate_all sample_engine)))"
  by code_simp

theorem correlate_all_results_consistent_witness:
  "sample_temporal_result \<in> set (correlations (fst (correlate_all sample_engine)))
   \<and> 0 \<le> correlation_score sample_temporal_result
   \<and> correlation_score sample_temporal_result \<le> 1
   \<and> attribution_confidence sample_temporal_result
       = assess_attribution_confidence (correlation_score sample_temporal_result)
   \<and> risk_level sample_temporal_result
       = assess_risk_level (attribution_confidence sample_temporal_result)
           (int (length (signals sample_temporal_result)))"
  using sample_temporal_result_stored
    correlate_all_results_consistent [of sample_engine, THEN bspec,
      OF sample_temporal_result_stored]
  by (intro conjI) blast+

theorem correlate_all_results_span_witness:
  "sample_temporal_result \<in> set (correlations (fst (correlate_all sample_engine)))
   \<and> 2 \<le> length (signals sample_temporal_result)
   \<and> 2 \<le> card (layer ` set (signals sample_temporal_result))
   \<and> correlation_type sample_temporal_result \<noteq> ''MULTI_LAYER_CONVERGENCE''
   \<and> snd (correlate_all sample_engine) = Inr (correlations (fst (correlate_all sample_engine)))"
proof -
  have ret: "snd (correlate_all sample_engine)
               = Inr (correlate_temporal (engine_signals sample_engine)
                        @ correlate_cross_layer (engine_signals sample_engine))"
    by (simp add: correlate_all_eq sample_engine_def sample_signal_def)
  have eq: "correlate_temporal (engine_signals sample_engine)
              @ correlate_cross_layer (engine_signals sample_engine)
            = correlations (fst (correlate_all sample_engine))"
    using correlate_all_results_span [of sample_engine, THEN conjunct2, rule_format, OF ret] .
  have returned: "snd (correlate_all sample_engine)
                    = Inr (correlations (fst (correlate_all sample_engine)))"
    by (simp only: ret eq)
  have "2 \<le> length (signals sample_temporal_result)
        \<and> 2 \<le> card (layer ` set (signals sample_temporal_result))"
    using correlate_all_results_span [of sample_engine, THEN conjunct1, THEN bspec,
      OF sample_temporal_result_stored]
    by blast
  moreover have "correlation_type sample_temporal_result \<noteq> ''MULTI_LAYER_CONVERGENCE''"
    by (simp add: sample_temporal_result_def make_result_simps)
  ultimately show ?thesis
    using sample_temporal_result_stored returned by (intro conjI) blast+
qed

section \<open>Recommendations: properties\<close>














section \<open>Temporal pass: properties\<close>

lemma pairs_by_key:
  "\<forall>(k, v) \<in> set ps. v = F k \<Longrightarrow> ps = map (\<lambda>k. (k, F k)) (map fst ps)"
  by (induction ps) auto

text \<open>The dictionary in closed form: one entry per key, in order of first occurrence.\<close>

lemma group_by_eq:
  "group_by f xs =
     map (\<lambda>k. (k, filter (\<lambda>x. f x = k) xs)) (rev (remdups (rev (map f xs))))"
proof -
  have "\<forall>(k, v) \<in> set (group_by f xs). v = filter (\<lambda>x. f x = k) xs"
    using group_by_member [of _ _ f xs] by blast
  then have "group_by f xs
               = map (\<lambda>k. (k, filter (\<lambda>x. f x = k) xs)) (map fst (group_by f xs))"
    by (rule pairs_by_key)
  then show ?thesis by (simp only: keys_group_by_order)
qed

lemma temporal_bucket_eq:
  "temporal_bucket b =
     (if qualifies b
      then [make_result b ''TEMPORAL''
              (py_str (length b) @ '' signals from '' @ py_str (card (layer ` set b))
                 @ '' layers occurred within '' @ py_str (nat time_window_seconds)
                 @ ''s window'')]
      else [])"
  by (auto simp: temporal_bucket_def qualifies_def Let_def)

lemma temporal_buckets_signals:
  "map signals (concat (map (\<lambda>(key, bucket_signals). temporal_bucket bucket_signals) ps))
     = filter qualifies (map snd ps)"
  by (induction ps) (auto simp: temporal_bucket_eq make_result_simps)

text \<open>
  One result for each bucket that qualifies, in the order of the buckets, and nothing else;
  the buckets are those of the truncated quotient.
\<close>

lemma correlate_temporal_signals:
  "map signals (correlate_temporal sigs) =
     filter qualifies
       (map (\<lambda>k. filter (\<lambda>s. bucket_key s = k) sigs)
            (rev (remdups (rev (map bucket_key sigs)))))"
proof -
  have "map signals (correlate_temporal sigs)
          = filter qualifies (map snd (group_by bucket_key sigs))"
    by (simp only: correlate_temporal_def temporal_buckets_signals)
  also have "map snd (group_by bucket_key sigs)
               = map (\<lambda>k. filter (\<lambda>s. bucket_key s = k) sigs)
                     (rev (remdups (rev (map bucket_key sigs))))"
    by (subst group_by_eq) (simp add: comp_def)
  finally show ?thesis .
qed

lemma correlate_temporal_type:
  "c \<in> set (correlate_temporal sigs) \<Longrightarrow> correlation_type c = ''TEMPORAL''"
  using correlate_temporal_member [of c sigs] by (auto simp: make_result_simps)

text \<open>From the epoch on, the key is the floor of the quotient.\<close>

lemma bucket_key_floor:
  "0 \<le> timestamp s \<Longrightarrow> bucket_key s = floor_bucket_key s"
  by (simp add: bucket_key_def floor_bucket_key_def py_int_def time_window_seconds_def)

text \<open>Two signals from the epoch on, 400 seconds apart, give no temporal result.\<close>

lemma correlate_temporal_400_apart:
  assumes "0 \<le> timestamp a" and "timestamp b = timestamp a + 400"
  shows "correlate_temporal [a, b] = []"
proof -
  have "\<lfloor>timestamp a / 300\<rfloor> + 1 = \<lfloor>(timestamp a + 300) / 300\<rfloor>"
    by (simp add: add_divide_distrib)
  also have "\<dots> \<le> \<lfloor>(timestamp a + 400) / 300\<rfloor>"
    by (intro floor_mono) (simp add: divide_right_mono)
  finally have "floor_bucket_key a \<noteq> floor_bucket_key b"
    by (simp add: floor_bucket_key_def assms(2))
  then have "bucket_key a \<noteq> bucket_key b"
    using assms by (simp add: bucket_key_floor)
  then show ?thesis
    by (simp add: correlate_temporal_def group_by_def temporal_bucket_def)
qed

text \<open>
  Claim C4.  The claim keys the buckets by the floor of the quotient, so that two signals
  400 seconds apart never share a bucket.  The source truncates towards zero: a signal 200
  seconds before the epoch and one 200 seconds after it, of two layers, have floor keys -1
  and 0 but the same truncated key 0, and the pass emits one TEMPORAL result for them.
\<close>

theorem correlate_temporal_truncates:
  "floor_bucket_key (sample_signal ''sinkhole_hit'' DNS (- 200) SOLO) = - 1
   \<and> floor_bucket_key (sample_signal ''as_path_length'' NETWORK 200 MULTI) = 0
   \<and> bucket_key (sample_signal ''sinkhole_hit'' DNS (- 200) SOLO) = 0
   \<and> bucket_key (sample_signal ''as_path_length'' NETWORK 200 MULTI) = 0
   \<and> map signals (correlate_temporal
         [sample_signal ''sinkhole_hit'' DNS (- 200) SOLO,
          sample_signal ''as_path_length'' NETWORK 200 MULTI])
       = [ [sample_signal ''sinkhole_hit'' DNS (- 200) SOLO,
           sample_signal ''as_path_length'' NETWORK 200 MULTI]]
   \<and> map correlation_type (correlate_temporal
         [sample_signal ''sinkhole_hit'' DNS (- 200) SOLO,
          sample_signal ''as_path_length'' NETWORK 200 MULTI])
       = [''TEMPORAL'']"
proof -
  let ?a = "sample_signal ''sinkhole_hit'' DNS (- 200) SOLO"
  let ?b = "sample_signal ''as_path_length'' NETWORK 200 MULTI"
  have fa: "floor_bucket_key ?a = - 1" and fb: "floor_bucket_key ?b = 0"
    by (simp_all add: floor_bucket_key_def sample_signal_def)
  have ka: "bucket_key ?a = 0" and kb: "bucket_key ?b = 0"
    by (simp_all add: bucket_key_def py_int_def time_window_seconds_def sample_signal_def)
  have q: "qualifies [?a, ?b]"
    by (simp add: qualifies_def sample_signal_def)
  have g: "group_by bucket_key [?a, ?b] = [(0, [?a, ?b])]"
    by (simp add: group_by_def ka kb)
  have s: "map signals (correlate_temporal [?a, ?b]) = [ [?a, ?b]]"
    by (simp add: correlate_temporal_def g temporal_bucket_eq q make_result_simps)
  have t: "map correlation_type (correlate_temporal [?a, ?b]) = [''TEMPORAL'']"
    by (simp add: correlate_temporal_def g temporal_bucket_eq q make_result_simps)
  from fa fb ka kb s t show ?thesis by (intro conjI)
qed

end
